theory Spec2Isabelle
  imports Complex_Main "HOL-Library.Word"
begin

unbundle bit_operations_syntax

section \<open>Errors and results\<close>

text \<open>
  Every exception of the Python code is a value. The string is the static part of the
  message. \<open>OtherError\<close> stands for the exceptions of Python's own library
  (\<open>decimal.InvalidOperation\<close>, \<open>OverflowError\<close>, \<open>IndexError\<close>, ...).
\<close>

datatype error =
    BTClibValueError string
  | BTClibRuntimeError string
  | BTClibTypeError string
  | AssertionError string
  | OtherError string

text \<open>Sequencing of fallible steps: the first exception ends the computation.\<close>

fun bnd :: "error + 'a \<Rightarrow> ('a \<Rightarrow> error + 'b) \<Rightarrow> error + 'b" where
  "bnd (Inl e) f = Inl e"
| "bnd (Inr x) f = f x"


type_synonym bytes = "8 word list"

section \<open>Number theory (numbertheory.py is not among the sources)\<close>

text \<open>The extended Euclidean algorithm on non-negative integers.\<close>

function xgcd :: "int \<Rightarrow> int \<Rightarrow> int \<times> int \<times> int" where
  "xgcd a b = (if b \<le> 0 then (a, 1, 0)
     else (case xgcd b (a mod b) of (g, x, y) \<Rightarrow> (g, y, x - (a div b) * y)))"
  by pat_completeness auto
termination
  by (relation "measure (\<lambda>(a, b). nat b)") auto

declare xgcd.simps [simp del]

text \<open>
  Modelled from the spec: \<open>mod_inv(a, m)\<close> of numbertheory.py, "returns the unique x in
  [1, m-1] with a*x = 1 (mod m); fails if gcd(a, m) \<noteq> 1", a runtime error by the spec's
  error kinds.
\<close>

definition mod_inv :: "int \<Rightarrow> int \<Rightarrow> error + int" where
  "mod_inv a m = (case xgcd (a mod m) m of (g, x, y) \<Rightarrow>
     if 1 < m \<and> g = 1 then Inr (x mod m) else Inl (BTClibRuntimeError ''no inverse''))"


section \<open>Python numbers\<close>

text \<open>\<open>int.bit_length()\<close>: the number of bits of the absolute value.\<close>

function bit_length :: "int \<Rightarrow> nat" where
  "bit_length i = (if i = 0 then 0 else Suc (bit_length (\<bar>i\<bar> div 2)))"
  by pat_completeness auto
termination
  by (relation "measure (\<lambda>i. nat \<bar>i\<bar>)") auto

declare bit_length.simps [simp del]

text \<open>
  A finite Python float (an IEEE 754 binary64) is \<open>Float m e\<close>, the number
  \<open>m * 2 ^ e\<close>. \<open>round_half_even num den\<close> is the integer nearest to
  \<open>num / den\<close> (\<open>den > 0\<close>), ties to the even one: the rounding of binary64.
\<close>

datatype pyfloat = Float int int

definition round_half_even :: "int \<Rightarrow> int \<Rightarrow> int" where
  "round_half_even num den = (let q = num div den; r = num mod den in
     if den < 2 * r \<or> (2 * r = den \<and> odd q) then q + 1 else q)"

text \<open>
  \<open>a / b\<close> on two Python ints (true division): the binary64 nearest to the quotient,
  \<open>ZeroDivisionError\<close> for \<open>b = 0\<close> and \<open>OverflowError\<close> when the result is
  beyond the largest float. The significand has 53 bits; the exponent of the unit in the
  last place is at least -1074 (subnormal numbers).
\<close>

definition truediv_exp :: "int \<Rightarrow> int \<Rightarrow> int" where
  "truediv_exp a b = (let d = int (bit_length a) - int (bit_length b);
       e = (if \<bar>b\<bar> * 2 ^ nat d \<le> \<bar>a\<bar> * 2 ^ nat (- d) then d - 52 else d - 53)
     in max e (- 1074))"

definition truediv :: "int \<Rightarrow> int \<Rightarrow> error + pyfloat" where
  "truediv a b =
     (if b = 0 then Inl (OtherError ''ZeroDivisionError: division by zero'')
      else if a = 0 then Inr (Float 0 0)
      else let e = truediv_exp a b;
               m = round_half_even (\<bar>a\<bar> * 2 ^ nat (- e)) (\<bar>b\<bar> * 2 ^ nat e)
           in if 2 ^ 1024 \<le> m * 2 ^ nat e
              then Inl (OtherError ''OverflowError: integer division result too large for a float'')
              else Inr (Float (sgn a * sgn b * m) e))"

text \<open>\<open>i > x\<close> for an int \<open>i\<close> and a float \<open>x\<close>: Python compares the two exactly.\<close>

fun int_gt_float :: "int \<Rightarrow> pyfloat \<Rightarrow> bool" where
  "int_gt_float i (Float m e) = (m * 2 ^ nat e < i * 2 ^ nat (- e))"

section \<open>Elliptic curves (curve.py and curvegroup.py are not among the sources)\<close>

text \<open>
  The fields of a \<open>Curve\<close> object that dsa.py reads: \<open>ec.p\<close>, \<open>ec._a\<close>, \<open>ec._b\<close>,
  \<open>ec.GJ\<close>, \<open>ec.n\<close>, \<open>ec.cofactor\<close>, \<open>ec.nlen\<close>. A Jacobian point is the
  triple \<open>(X, Y, Z)\<close>, the affine point \<open>(X/Z^2, Y/Z^3)\<close> when \<open>Z \<noteq> 0\<close> and
  infinity when \<open>Z = 0\<close>.
\<close>

type_synonym JacPoint = "int \<times> int \<times> int"

record Curve =
  ec_p :: int
  ec_a :: int
  ec_b :: int
  ec_GJ :: JacPoint
  ec_n :: int
  ec_cofactor :: int
  ec_nlen :: nat

definition INFJ :: JacPoint where
  "INFJ = (7, 0, 0)"

text \<open>
  Modelled from the spec: Jacobian doubling and addition of curvegroup.py, by the
  textbook formulas for \<open>y^2 = x^3 + a*x + b\<close>; the spec fixes the point they return,
  not its Jacobian representative.
\<close>

definition double_jac :: "JacPoint \<Rightarrow> Curve \<Rightarrow> JacPoint" where
  "double_jac Q ec = (case Q of (X, Y, Z) \<Rightarrow>
     if Z mod ec_p ec = 0 \<or> Y mod ec_p ec = 0 then INFJ
     else let S = 4 * X * Y * Y mod ec_p ec;
              M = (3 * X * X + ec_a ec * Z * Z * Z * Z) mod ec_p ec;
              X3 = (M * M - 2 * S) mod ec_p ec;
              Y3 = (M * (S - X3) - 8 * Y * Y * Y * Y) mod ec_p ec;
              Z3 = 2 * Y * Z mod ec_p ec
          in (X3, Y3, Z3))"

definition add_jac :: "JacPoint \<Rightarrow> JacPoint \<Rightarrow> Curve \<Rightarrow> JacPoint" where
  "add_jac Q R ec = (case Q of (X1, Y1, Z1) \<Rightarrow> case R of (X2, Y2, Z2) \<Rightarrow>
     if Z1 mod ec_p ec = 0 then R
     else if Z2 mod ec_p ec = 0 then Q
     else let U1 = X1 * Z2 * Z2 mod ec_p ec;
              U2 = X2 * Z1 * Z1 mod ec_p ec;
              S1 = Y1 * Z2 * Z2 * Z2 mod ec_p ec;
              S2 = Y2 * Z1 * Z1 * Z1 mod ec_p ec
          in if U1 = U2 then (if S1 = S2 then double_jac Q ec else INFJ)
             else let H = (U2 - U1) mod ec_p ec;
                      W = (S2 - S1) mod ec_p ec;
                      X3 = (W * W - H * H * H - 2 * U1 * H * H) mod ec_p ec;
                      Y3 = (W * (U1 * H * H - X3) - S1 * H * H * H) mod ec_p ec;
                      Z3 = H * Z1 * Z2 mod ec_p ec
                  in (X3, Y3, Z3))"

function mult_nat :: "nat \<Rightarrow> JacPoint \<Rightarrow> Curve \<Rightarrow> JacPoint" where
  "mult_nat k Q ec = (if k = 0 then INFJ
     else let H = double_jac (mult_nat (k div 2) Q ec) ec
          in if odd k then add_jac H Q ec else H)"
  by pat_completeness auto
termination
  by (relation "measure (\<lambda>(k, Q, ec). k)") auto

declare mult_nat.simps [simp del]

text \<open>
  Modelled from the spec: \<open>_mult(k, P)\<close> is the scalar multiple \<open>k*P\<close> and
  \<open>_double_mult(u, H, v, Q)\<close> is \<open>u*H + v*Q\<close>, both in Jacobian coordinates, with
  the failure mode "scalar out of range" for a negative scalar.
\<close>

definition u_mult :: "int \<Rightarrow> JacPoint \<Rightarrow> Curve \<Rightarrow> error + JacPoint" where
  "u_mult m Q ec = (if m < 0 then Inl (BTClibValueError ''negative m'')
     else Inr (mult_nat (nat m) Q ec))"



text \<open>
  The curve of scripts/EC1_6_F11_G5_9_N13.py: \<open>y^2 = x^3 + x + 6\<close> over the field of
  11 elements, generator (5, 9) of prime order 13. And secp256k1, the default curve.
\<close>

definition ec11_13 :: Curve where
  "ec11_13 = \<lparr>ec_p = 11, ec_a = 1, ec_b = 6, ec_GJ = (5, 9, 1), ec_n = 13,
     ec_cofactor = 1, ec_nlen = 4\<rparr>"

definition secp256k1 :: Curve where
  "secp256k1 = \<lparr>
     ec_p = 0xFFFFFFFFFFFFFFFFFFFFFFFFFFFFFFFFFFFFFFFFFFFFFFFFFFFFFFFEFFFFFC2F,
     ec_a = 0,
     ec_b = 7,
     ec_GJ = (0x79BE667EF9DCBBAC55A06295CE870B07029BFCDB2DCE28D959F2815B16F81798,
              0x483ADA7726A3C4655DA4FBFC0E1108A8FD17B448A68554199C47D08FFB10D4B8,
              1),
     ec_n = 0xFFFFFFFFFFFFFFFFFFFFFFFFFFFFFFFEBAAEDCE6AF48A03BBFD25E8CD0364141,
     ec_cofactor = 1,
     ec_nlen = 256\<rparr>"


section \<open>dsa.py\<close>

text \<open>
  \<open>__sign(c, q, k, low_s, ec)\<close>, here \<open>uu_sign\<close> (an Isabelle name cannot start
  with an underscore: one leading underscore of the source is the prefix \<open>u_\<close>, two
  are \<open>uu_\<close>).
\<close>

definition uu_sign :: "int \<Rightarrow> int \<Rightarrow> int \<Rightarrow> bool \<Rightarrow> Curve \<Rightarrow> error + (int \<times> int)" where
  "uu_sign c q k low_s ec =
     bnd (u_mult k (ec_GJ ec) ec) (\<lambda>KJ. case KJ of (KX, KY, KZ) \<Rightarrow>
     bnd (mod_inv (KZ * KZ) (ec_p ec)) (\<lambda>zi.
       let x_K = (KX * zi) mod ec_p ec;
           r = x_K mod ec_n ec
       in if r = 0 then Inl (BTClibRuntimeError ''failed to sign: r = 0'')
          else bnd (mod_inv k (ec_n ec)) (\<lambda>ki.
            let s = ki * (c + r * q) mod ec_n ec
            in if s = 0 then Inl (BTClibRuntimeError ''failed to sign: s = 0'')
               else if low_s
                    then bnd (truediv (ec_n ec) 2) (\<lambda>half.
                           if int_gt_float s half then Inr (r, ec_n ec - s) else Inr (r, s))
                    else Inr (r, s))))"

text \<open>
  A hash function \<open>hf\<close> is its \<open>digest_size\<close> and the map from a message to its
  digest. Messages and octets are byte strings. A signature is the tuple \<open>(r, s)\<close>
  or its DER serialization.
\<close>

record HashF =
  hf_digest_size :: nat
  hf_digest :: "bytes \<Rightarrow> bytes"

datatype DSASig = SigTuple int int | SigOctets bytes

text \<open>
  What dsa.py calls of modules that are not among the sources and that the properties
  below do not depend on, taken as parameters: \<open>der.deserialize(sig, ec)[0:2]\<close>,
  \<open>point_from_key(key, ec)\<close>, \<open>int_from_prvkey(prvkey, ec)\<close> and
  \<open>__rfc6979(c, q, ec, hf)\<close>.
\<close>

record ('key, 'prv) externals =
  der_deserialize :: "bytes \<Rightarrow> Curve \<Rightarrow> error + (int \<times> int)"
  point_from_key :: "'key \<Rightarrow> Curve \<Rightarrow> error + (int \<times> int)"
  int_from_prvkey :: "'prv \<Rightarrow> Curve \<Rightarrow> error + int"
  rfc6979 :: "int \<Rightarrow> int \<Rightarrow> Curve \<Rightarrow> HashF \<Rightarrow> error + int"

text \<open>
  Modelled from the spec: \<open>der._validate_sig(r, s, None, ec)\<close>, "r and s must be in
  [1, n-1]".
\<close>

definition u_validate_sig :: "int \<Rightarrow> int \<Rightarrow> Curve \<Rightarrow> error + unit" where
  "u_validate_sig r s ec =
     (if \<not> (0 < r \<and> r < ec_n ec) then Inl (BTClibValueError ''scalar r not in 1..n-1'')
      else if \<not> (0 < s \<and> s < ec_n ec) then Inl (BTClibValueError ''scalar s not in 1..n-1'')
      else Inr ())"

definition deserialize :: "('key, 'prv) externals \<Rightarrow> DSASig \<Rightarrow> Curve \<Rightarrow> error + (int \<times> int)" where
  "deserialize X sig ec = (case sig of
       SigOctets der \<Rightarrow> der_deserialize X der ec
     | SigTuple r s \<Rightarrow> bnd (u_validate_sig r s ec) (\<lambda>u. Inr (r, s)))"

text \<open>
  Modelled from the spec: \<open>bytes_from_octets(m, hlen)\<close> accepts "a pre-digested message
  of exactly hf.digest_size bytes"; \<open>int_from_bits(buf, nbits)\<close> "interprets the leftmost
  nbits bits of buf as a big-endian integer"; \<open>reduce_to_hlen(msg, hf)\<close> applies the hash
  once.
\<close>

definition bytes_from_octets :: "bytes \<Rightarrow> nat \<Rightarrow> error + bytes" where
  "bytes_from_octets octs out_size =
     (if length octs \<noteq> out_size then Inl (BTClibValueError ''invalid size'') else Inr octs)"

definition int_from_bytes_big :: "bytes \<Rightarrow> int" where
  "int_from_bytes_big bs = foldl (\<lambda>acc b. acc * 256 + uint b) 0 bs"

definition int_from_bits :: "bytes \<Rightarrow> nat \<Rightarrow> int" where
  "int_from_bits buf nbits = int_from_bytes_big buf div 2 ^ (8 * length buf - nbits)"

definition reduce_to_hlen :: "bytes \<Rightarrow> HashF \<Rightarrow> bytes" where
  "reduce_to_hlen msg hf = hf_digest hf msg"

definition u_challenge :: "bytes \<Rightarrow> Curve \<Rightarrow> HashF \<Rightarrow> error + int" where
  "u_challenge m ec hf =
     bnd (bytes_from_octets m (hf_digest_size hf)) (\<lambda>m.
       Inr (int_from_bits m (ec_nlen ec) mod ec_n ec))"

definition challenge :: "bytes \<Rightarrow> Curve \<Rightarrow> HashF \<Rightarrow> error + int" where
  "challenge msg ec hf = u_challenge (reduce_to_hlen msg hf) ec hf"

definition u_sign :: "('key, 'prv) externals \<Rightarrow> bytes \<Rightarrow> 'prv \<Rightarrow> 'prv option \<Rightarrow> bool \<Rightarrow> Curve \<Rightarrow> HashF
    \<Rightarrow> error + (int \<times> int)" where
  "u_sign X m prvkey k low_s ec hf =
     bnd (bytes_from_octets m (hf_digest_size hf)) (\<lambda>m.
     bnd (int_from_prvkey X prvkey ec) (\<lambda>q.
     bnd (u_challenge m ec hf) (\<lambda>c.
     bnd (case k of None \<Rightarrow> rfc6979 X c q ec hf | Some k \<Rightarrow> int_from_prvkey X k ec) (\<lambda>k.
       uu_sign c q k low_s ec))))"

definition sign :: "('key, 'prv) externals \<Rightarrow> bytes \<Rightarrow> 'prv \<Rightarrow> bool \<Rightarrow> Curve \<Rightarrow> HashF
    \<Rightarrow> error + (int \<times> int)" where
  "sign X msg prvkey low_s ec hf = u_sign X (reduce_to_hlen msg hf) prvkey None low_s ec hf"






definition u_crack_prvkey :: "('key, 'prv) externals \<Rightarrow> bytes \<Rightarrow> DSASig \<Rightarrow> bytes \<Rightarrow> DSASig \<Rightarrow> Curve
    \<Rightarrow> HashF \<Rightarrow> error + (int \<times> int)" where
  "u_crack_prvkey X m_1 sig1 m_2 sig2 ec hf =
     bnd (deserialize X sig1 ec) (\<lambda>(r_1, s_1).
     bnd (deserialize X sig2 ec) (\<lambda>(r_2, s_2).
       if r_1 \<noteq> r_2 then Inl (BTClibValueError ''not the same r in signatures'')
       else if s_1 = s_2 then Inl (BTClibValueError ''identical signatures'')
       else
         bnd (bytes_from_octets m_1 (hf_digest_size hf)) (\<lambda>m_1.
         bnd (bytes_from_octets m_2 (hf_digest_size hf)) (\<lambda>m_2.
         bnd (u_challenge m_1 ec hf) (\<lambda>c_1.
         bnd (u_challenge m_2 ec hf) (\<lambda>c_2.
         bnd (mod_inv (s_1 - s_2) (ec_n ec)) (\<lambda>si.
           let k = (c_1 - c_2) * si mod ec_n ec
           in bnd (mod_inv r_1 (ec_n ec)) (\<lambda>ri.
                let q = (s_2 * k - c_2) * ri mod ec_n ec
                in Inr (q, k)))))))))"

definition crack_prvkey :: "('key, 'prv) externals \<Rightarrow> bytes \<Rightarrow> DSASig \<Rightarrow> bytes \<Rightarrow> DSASig \<Rightarrow> Curve
    \<Rightarrow> HashF \<Rightarrow> error + (int \<times> int)" where
  "crack_prvkey X msg1 sig1 msg2 sig2 ec hf =
     u_crack_prvkey X (reduce_to_hlen msg1 hf) sig1 (reduce_to_hlen msg2 hf) sig2 ec hf"

text \<open>
  The order \<open>n\<close> of a curve's generator is a prime (the \<open>Curve\<close> constructor checks
  it): no number from 2 to \<open>n - 1\<close> divides it.
\<close>

definition prime_order :: "int \<Rightarrow> bool" where
  "prime_order n = (1 < n \<and> list_all (\<lambda>d. \<not> d dvd n) [2..n - 1])"








section \<open>Byte strings and streams (utils.py, varint.py and varbytes.py are not among the sources)\<close>

text \<open>\<open>int.from_bytes(bs, "little")\<close> and \<open>i.to_bytes(len, "little")\<close>.\<close>

fun int_from_bytes_little :: "bytes \<Rightarrow> int" where
  "int_from_bytes_little [] = 0"
| "int_from_bytes_little (b # bs) = uint b + 256 * int_from_bytes_little bs"

fun bytes_little :: "nat \<Rightarrow> int \<Rightarrow> bytes" where
  "bytes_little 0 i = []"
| "bytes_little (Suc len) i = word_of_int (i mod 256) # bytes_little len (i div 256)"

definition int_to_bytes_little :: "int \<Rightarrow> nat \<Rightarrow> error + bytes" where
  "int_to_bytes_little i len =
     (if i < 0 then Inl (OtherError ''OverflowError: can't convert negative int to unsigned'')
      else if 256 ^ len \<le> i then Inl (OtherError ''OverflowError: int too big to convert'')
      else Inr (bytes_little len i))"

text \<open>
  A byte stream is the list of the bytes not yet read; \<open>stream.read(n)\<close> returns up to
  \<open>n\<close> bytes and advances.
\<close>

definition stream_read :: "nat \<Rightarrow> bytes \<Rightarrow> bytes \<times> bytes" where
  "stream_read k stream = (take k stream, drop k stream)"

text \<open>
  Modelled from the spec: the var-int ("compact size") of varint.py, "value < 0xFD: 1
  byte; < 0x10000: 0xFD + LE u16; < 0x1_0000_0000: 0xFE + LE u32; else 0xFF + LE u64",
  and the var-bytes of varbytes.py, "var-int length prefix followed by the payload". A
  decoder fails on a stream that ends before the value does.
\<close>

definition varint_encode :: "int \<Rightarrow> error + bytes" where
  "varint_encode i =
     (if i < 0 then Inl (BTClibValueError ''negative integer'')
      else if i < 0xFD then int_to_bytes_little i 1
      else if i < 0x10000 then bnd (int_to_bytes_little i 2) (\<lambda>bs. Inr (0xFD # bs))
      else if i < 0x100000000 then bnd (int_to_bytes_little i 4) (\<lambda>bs. Inr (0xFE # bs))
      else if i < 0x10000000000000000 then bnd (int_to_bytes_little i 8) (\<lambda>bs. Inr (0xFF # bs))
      else Inl (BTClibValueError ''integer too big for varint encoding''))"

definition read_exactly :: "nat \<Rightarrow> bytes \<Rightarrow> error + (bytes \<times> bytes)" where
  "read_exactly k stream =
     (if length stream < k then Inl (BTClibValueError ''not enough data'')
      else Inr (stream_read k stream))"

definition varint_decode :: "bytes \<Rightarrow> error + (int \<times> bytes)" where
  "varint_decode stream =
     bnd (read_exactly 1 stream) (\<lambda>(first, stream).
       let i = int_from_bytes_little first
       in if i < 0xFD then Inr (i, stream)
          else bnd (read_exactly (if i = 0xFD then 2 else if i = 0xFE then 4 else 8) stream)
                 (\<lambda>(bs, stream). Inr (int_from_bytes_little bs, stream)))"

definition varbytes_encode :: "bytes \<Rightarrow> error + bytes" where
  "varbytes_encode octets = bnd (varint_encode (int (length octets))) (\<lambda>pre. Inr (pre @ octets))"

definition varbytes_decode :: "bytes \<Rightarrow> error + (bytes \<times> bytes)" where
  "varbytes_decode stream =
     bnd (varint_decode stream) (\<lambda>(i, stream). read_exactly (nat i) stream)"

section \<open>tx_out.py\<close>

definition MAX_SATOSHI :: int where
  "MAX_SATOSHI = 2099999997690000"

record TxOut =
  txo_value :: int
  txo_script_pubkey :: bytes

definition TxOut_assert_valid :: "TxOut \<Rightarrow> error + unit" where
  "TxOut_assert_valid self =
     (if txo_value self < 0 then Inl (BTClibValueError ''negative value'')
      else if txo_value self > MAX_SATOSHI then Inl (BTClibValueError ''value too high'')
      else Inr ())"

definition TxOut_serialize :: "TxOut \<Rightarrow> bool \<Rightarrow> error + bytes" where
  "TxOut_serialize self assert_valid =
     bnd (if assert_valid then TxOut_assert_valid self else Inr ()) (\<lambda>u.
     bnd (int_to_bytes_little (txo_value self) 8) (\<lambda>out.
     bnd (varbytes_encode (txo_script_pubkey self)) (\<lambda>vb.
       Inr (out @ vb))))"

definition TxOut_deserialize :: "bytes \<Rightarrow> bool \<Rightarrow> error + TxOut" where
  "TxOut_deserialize data assert_valid =
     (case stream_read 8 data of (vb, stream) \<Rightarrow>
        let v = int_from_bytes_little vb
        in bnd (varbytes_decode stream) (\<lambda>(script_pubkey, stream).
             let tx_out = \<lparr>txo_value = v, txo_script_pubkey = script_pubkey\<rparr>
             in bnd (if assert_valid then TxOut_assert_valid tx_out else Inr ()) (\<lambda>u.
                  Inr tx_out)))"

section \<open>Python's decimal module\<close>

text \<open>
  A \<open>decimal.Decimal\<close> is a sign (True for negative), a coefficient (never negative)
  and an exponent, the number \<open>(-1)^sign * coefficient * 10^exponent\<close>, or an infinity,
  or a NaN. The
  context is the default one: 28 digits of precision, rounding half to even, exponents
  between \<open>Emin = -999999\<close> and \<open>Emax = 999999\<close>, the signals InvalidOperation,
  DivisionByZero and Overflow trapped (raised as exceptions), the others not.
\<close>

datatype decimal = Dec bool int int | DecInf bool | DecNaN

definition dec_prec :: int where "dec_prec = 28"
definition dec_Emax :: int where "dec_Emax = 999999"
definition dec_Emin :: int where "dec_Emin = - 999999"
definition dec_Etiny :: int where "dec_Etiny = dec_Emin - dec_prec + 1"
definition dec_Etop :: int where "dec_Etop = dec_Emax - dec_prec + 1"

text \<open>The number of decimal digits of a coefficient, \<open>len(str(c))\<close>.\<close>

function num_digits :: "int \<Rightarrow> int" where
  "num_digits c = (if c < 10 then 1 else 1 + num_digits (c div 10))"
  by pat_completeness auto
termination
  by (relation "measure nat") auto

declare num_digits.simps [simp del]

text \<open>
  \<open>Decimal._fix(context)\<close>: the result of every arithmetic operation is rounded to the
  precision of the context and its exponent brought into range.
\<close>

definition dec_fix :: "decimal \<Rightarrow> error + decimal" where
  "dec_fix d = (case d of
       Dec sg c e \<Rightarrow>
         if c = 0 then Inr (Dec sg 0 (min (max e dec_Etiny) dec_Emax))
         else let exp_min = num_digits c + e - dec_prec
              in if exp_min > dec_Etop then Inl (OtherError ''decimal.Overflow'')
                 else let exp_min = max exp_min dec_Etiny
                      in if e < exp_min
                         then let coeff = round_half_even c (10 ^ nat (exp_min - e));
                                  long = (dec_prec < num_digits coeff);
                                  coeff = (if long then coeff div 10 else coeff);
                                  exp_min = (if long then exp_min + 1 else exp_min)
                              in if exp_min > dec_Etop then Inl (OtherError ''decimal.Overflow'')
                                 else Inr (Dec sg coeff exp_min)
                         else Inr d
     | _ \<Rightarrow> Inr d)"

text \<open>\<open>abs(d)\<close>, \<open>a * b\<close>, \<open>Decimal(i)\<close> for an int and \<open>int(d)\<close>.\<close>

definition dec_abs :: "decimal \<Rightarrow> error + decimal" where
  "dec_abs d = (case d of
       Dec sg c e \<Rightarrow> dec_fix (Dec False c e)
     | DecInf sg \<Rightarrow> Inr (DecInf False)
     | DecNaN \<Rightarrow> Inr DecNaN)"

definition dec_of_int :: "int \<Rightarrow> decimal" where
  "dec_of_int i = Dec (i < 0) \<bar>i\<bar> 0"

definition dec_mul :: "decimal \<Rightarrow> decimal \<Rightarrow> error + decimal" where
  "dec_mul x y = (case (x, y) of
       (Dec s1 c1 e1, Dec s2 c2 e2) \<Rightarrow> dec_fix (Dec (s1 \<noteq> s2) (c1 * c2) (e1 + e2))
     | (DecNaN, _) \<Rightarrow> Inr DecNaN
     | (_, DecNaN) \<Rightarrow> Inr DecNaN
     | (DecInf s1, Dec s2 c2 e2) \<Rightarrow>
         if c2 = 0 then Inl (OtherError ''decimal.InvalidOperation'') else Inr (DecInf (s1 \<noteq> s2))
     | (Dec s1 c1 e1, DecInf s2) \<Rightarrow>
         if c1 = 0 then Inl (OtherError ''decimal.InvalidOperation'') else Inr (DecInf (s1 \<noteq> s2))
     | (DecInf s1, DecInf s2) \<Rightarrow> Inr (DecInf (s1 \<noteq> s2)))"

definition dec_to_int :: "decimal \<Rightarrow> error + int" where
  "dec_to_int d = (case d of
       Dec sg c e \<Rightarrow>
         Inr ((if sg then - 1 else 1) *
              (if 0 \<le> e then c * 10 ^ nat e else c div 10 ^ nat (- e)))
     | DecInf sg \<Rightarrow> Inl (OtherError ''OverflowError: cannot convert Infinity to integer'')
     | DecNaN \<Rightarrow> Inl (OtherError ''ValueError: cannot convert NaN to integer''))"

text \<open>
  Comparison is by numerical value, whatever the exponents: \<open>dec_less\<close> is \<open>a < b\<close> for
  two numbers. An ordering with a NaN signals InvalidOperation; \<open>==\<close> with a NaN is
  False.
\<close>

definition signed_coeff :: "bool \<Rightarrow> int \<Rightarrow> int" where
  "signed_coeff sg c = (if sg then - c else c)"

fun dec_less :: "decimal \<Rightarrow> decimal \<Rightarrow> bool" where
  "dec_less (Dec s1 c1 e1) (Dec s2 c2 e2) =
     (signed_coeff s1 c1 * 10 ^ nat (e1 - min e1 e2) < signed_coeff s2 c2 * 10 ^ nat (e2 - min e1 e2))"
| "dec_less (Dec s1 c1 e1) (DecInf s2) = (\<not> s2)"
| "dec_less (DecInf s1) (Dec s2 c2 e2) = s1"
| "dec_less (DecInf s1) (DecInf s2) = (s1 \<and> \<not> s2)"
| "dec_less DecNaN y = False"
| "dec_less x DecNaN = False"

definition dec_gt :: "decimal \<Rightarrow> decimal \<Rightarrow> error + bool" where
  "dec_gt x y = (if x = DecNaN \<or> y = DecNaN then Inl (OtherError ''decimal.InvalidOperation'')
     else Inr (dec_less y x))"

definition dec_eq :: "decimal \<Rightarrow> decimal \<Rightarrow> bool" where
  "dec_eq x y = (x \<noteq> DecNaN \<and> y \<noteq> DecNaN \<and> \<not> dec_less x y \<and> \<not> dec_less y x)"




text \<open>
  \<open>Decimal(s)\<close> for a string: surrounding whitespace and underscores are dropped; then
  an optional sign and either digits with an optional fraction and an optional exponent
  (at least one digit before the exponent), or \<open>Inf\<close>, \<open>Infinity\<close>, \<open>NaN\<close>, \<open>sNaN\<close>
  with diagnostic digits, letters in either case. Anything else signals
  InvalidOperation.
\<close>

definition is_digit :: "char \<Rightarrow> bool" where
  "is_digit ch = (ch \<in> set ''0123456789'')"

definition is_space :: "char \<Rightarrow> bool" where
  "is_space ch = (ch \<in> set [CHR '' '', CHR 0x09, CHR 0x0A, CHR 0x0B, CHR 0x0C, CHR 0x0D,
     CHR 0x1C, CHR 0x1D, CHR 0x1E, CHR 0x1F])"

definition int_of_digits :: "string \<Rightarrow> int" where
  "int_of_digits ds = foldl (\<lambda>acc ch. 10 * acc + (of_char ch - 48)) 0 ds"

definition lower :: "string \<Rightarrow> string" where
  "lower s = map (\<lambda>ch. if ch \<in> set ''ABCDEFGHIJKLMNOPQRSTUVWXYZ'' then char_of (of_char ch + (32::nat)) else ch) s"

definition strip :: "string \<Rightarrow> string" where
  "strip s = rev (dropWhile is_space (rev (dropWhile is_space s)))"

definition split_sign :: "string \<Rightarrow> bool \<times> string" where
  "split_sign s = (case s of
       ch # rest \<Rightarrow> if ch = CHR ''-'' then (True, rest) else if ch = CHR ''+'' then (False, rest)
                    else (False, s)
     | [] \<Rightarrow> (False, s))"

definition parse_exponent :: "string \<Rightarrow> int option" where
  "parse_exponent s = (case s of
       [] \<Rightarrow> Some 0
     | ch # rest \<Rightarrow>
         if ch = CHR ''e'' then
           (case split_sign rest of (neg, ds) \<Rightarrow>
              if ds \<noteq> [] \<and> list_all is_digit ds
              then Some (if neg then - int_of_digits ds else int_of_digits ds)
              else None)
         else None)"

definition Decimal_of_str :: "string \<Rightarrow> error + decimal" where
  "Decimal_of_str s =
     (case split_sign (lower (filter (\<lambda>ch. ch \<noteq> CHR ''_'') (strip s))) of (neg, body) \<Rightarrow>
        if body = ''inf'' \<or> body = ''infinity'' then Inr (DecInf neg)
        else if (take 3 body = ''nan'' \<and> list_all is_digit (drop 3 body))
              \<or> (take 4 body = ''snan'' \<and> list_all is_digit (drop 4 body)) then Inr DecNaN
        else let intpart = takeWhile is_digit body;
                 rest = dropWhile is_digit body;
                 fracpart = (if take 1 rest = ''.'' then takeWhile is_digit (drop 1 rest) else []);
                 rest = (if take 1 rest = ''.'' then dropWhile is_digit (drop 1 rest) else rest)
             in if intpart = [] \<and> fracpart = [] then Inl (OtherError ''decimal.InvalidOperation'')
                else (case parse_exponent rest of
                        None \<Rightarrow> Inl (OtherError ''decimal.InvalidOperation'')
                      | Some ex \<Rightarrow>
                          Inr (Dec neg (int_of_digits (intpart @ fracpart)) (ex - int (length fracpart)))))"

text \<open>\<open>str(i)\<close> for an int and \<open>str(d)\<close> for a Decimal (scientific notation).\<close>

function digits_of :: "int \<Rightarrow> string" where
  "digits_of k = (if k < 10 then [''0123456789'' ! nat k]
     else digits_of (k div 10) @ [''0123456789'' ! nat (k mod 10)])"
  by pat_completeness auto
termination
  by (relation "measure nat") auto

declare digits_of.simps [simp del]

definition str_of_int :: "int \<Rightarrow> string" where
  "str_of_int i = (if i < 0 then ''-'' else '''') @ digits_of \<bar>i\<bar>"

definition str_of_Decimal :: "decimal \<Rightarrow> string" where
  "str_of_Decimal d = (case d of
       DecNaN \<Rightarrow> ''NaN''
     | DecInf sg \<Rightarrow> (if sg then ''-'' else '''') @ ''Infinity''
     | Dec sg c e \<Rightarrow>
         let ds = digits_of c;
             leftdigits = e + int (length ds);
             dotplace = (if e \<le> 0 \<and> - 6 < leftdigits then leftdigits else 1);
             intpart = (if dotplace \<le> 0 then ''0''
                        else if int (length ds) \<le> dotplace
                        then ds @ replicate (nat (dotplace - int (length ds))) (CHR ''0'')
                        else take (nat dotplace) ds);
             fracpart = (if dotplace \<le> 0 then ''.'' @ replicate (nat (- dotplace)) (CHR ''0'') @ ds
                         else if int (length ds) \<le> dotplace then ''''
                         else ''.'' @ drop (nat dotplace) ds);
             ex = (if leftdigits = dotplace then ''''
                   else ''E'' @ (if leftdigits - dotplace < 0 then ''-'' else ''+'')
                        @ digits_of \<bar>leftdigits - dotplace\<bar>)
         in (if sg then ''-'' else '''') @ intpart @ fracpart @ ex)"

section \<open>amount.py\<close>

text \<open>
  The argument of \<open>sats_from_btc\<close> is any Python value that \<open>str\<close> converts: a string,
  an int, a Decimal or a float. Of a float the function reads only \<open>str(amount)\<close>, its
  repr (the shortest decimal string that gives the float back): a float is that string.
\<close>

datatype pyval = PyStr string | PyInt int | PyDecimal decimal | PyFloat string

definition py_str :: "pyval \<Rightarrow> string" where
  "py_str v = (case v of
       PyStr s \<Rightarrow> s
     | PyInt i \<Rightarrow> str_of_int i
     | PyDecimal d \<Rightarrow> str_of_Decimal d
     | PyFloat repr \<Rightarrow> repr)"

definition SATOSHI_PER_BITCOIN :: int where
  "SATOSHI_PER_BITCOIN = 100000000"


definition MAX_BITCOIN :: decimal where
  "MAX_BITCOIN = Dec False 209999999769 (- 4)"

definition sats_from_btc :: "pyval \<Rightarrow> error + int" where
  "sats_from_btc amount =
     (let amount = py_str amount
      in bnd (Decimal_of_str amount) (\<lambda>btc.
         bnd (dec_abs btc) (\<lambda>abs_btc.
         bnd (dec_gt abs_btc MAX_BITCOIN) (\<lambda>too_big.
           if too_big then Inl (BTClibValueError ''invalid BTC amount'')
           else bnd (dec_mul btc (dec_of_int SATOSHI_PER_BITCOIN)) (\<lambda>sats.
                bnd (dec_to_int sats) (\<lambda>int_sats.
                  if dec_eq (dec_of_int int_sats) sats then Inr int_sats
                  else Inl (BTClibValueError ''too many decimals for a BTC amount'')))))))"







section \<open>psbt_in.py\<close>

text \<open>
  A \<open>Dict[bytes, bytes]\<close> is the list of its items in insertion order, the order in
  which \<open>items()\<close> gives them; \<open>d[k] = v\<close> is \<open>dict_set\<close>.
\<close>

type_synonym dict_bytes_bytes = "(bytes \<times> bytes) list"

definition dict_set :: "('k \<times> 'v) list \<Rightarrow> 'k \<Rightarrow> 'v \<Rightarrow> ('k \<times> 'v) list" where
  "dict_set d k v = (if k \<in> fst ` set d
     then map (\<lambda>(k', v'). if k' = k then (k', v) else (k', v')) d
     else d @ [(k, v)])"

text \<open>
  What psbt_in.py imports from modules that are not among the sources, taken as
  parameters: the class \<open>Tx\<close> (a transaction is a value of the type \<open>'tx\<close>),
  \<open>secpoint.point_from_octets\<close>, \<open>SIGHASHES\<close>, the witness codec of tx_in.py, the
  helpers of psbt_out.py, and \<open>str.encode("utf-8")\<close>, \<open>bytes.decode("utf-8")\<close>.
  \<open>proprietary\<close> is a \<open>Dict[int, Dict[str, str]]\<close>.
\<close>

type_synonym proprietary_dict = "(int \<times> (string \<times> string) list) list"

record 'tx psbt_externals =
  Tx_deserialize :: "bytes \<Rightarrow> error + 'tx"
  Tx_serialize :: "'tx \<Rightarrow> error + bytes"
  Tx_assert_valid :: "'tx \<Rightarrow> error + unit"
  point_from_octets :: "bytes \<Rightarrow> error + (int \<times> int)"
  SIGHASHES :: "int list"
  witness_deserialize :: "bytes \<Rightarrow> error + bytes list"
  witness_serialize :: "bytes list \<Rightarrow> error + bytes"
  u_assert_valid_bip32_derivs :: "dict_bytes_bytes \<Rightarrow> error + unit"
  u_assert_valid_proprietary :: "proprietary_dict \<Rightarrow> error + unit"
  u_assert_valid_unknown :: "dict_bytes_bytes \<Rightarrow> error + unit"
  u_deserialize_proprietary :: "bytes \<Rightarrow> bytes \<Rightarrow> error + proprietary_dict"
  u_serialize_proprietary :: "proprietary_dict \<Rightarrow> bytes \<Rightarrow> error + bytes"
  u_serialize_dict_bytes_bytes :: "dict_bytes_bytes \<Rightarrow> bytes \<Rightarrow> error + bytes"
  utf8_encode :: "string \<Rightarrow> error + bytes"
  utf8_decode :: "bytes \<Rightarrow> error + string"

definition PSBT_IN_NON_WITNESS_UTXO :: bytes where "PSBT_IN_NON_WITNESS_UTXO = [0x00]"
definition PSBT_IN_WITNESS_UTXO :: bytes where "PSBT_IN_WITNESS_UTXO = [0x01]"
definition PSBT_IN_PARTIAL_SIG :: bytes where "PSBT_IN_PARTIAL_SIG = [0x02]"
definition PSBT_IN_SIGHASH_TYPE :: bytes where "PSBT_IN_SIGHASH_TYPE = [0x03]"
definition PSBT_IN_REDEEM_SCRIPT :: bytes where "PSBT_IN_REDEEM_SCRIPT = [0x04]"
definition PSBT_IN_WITNESS_SCRIPT :: bytes where "PSBT_IN_WITNESS_SCRIPT = [0x05]"
definition PSBT_IN_BIP32_DERIVATION :: bytes where "PSBT_IN_BIP32_DERIVATION = [0x06]"
definition PSBT_IN_FINAL_SCRIPTSIG :: bytes where "PSBT_IN_FINAL_SCRIPTSIG = [0x07]"
definition PSBT_IN_FINAL_SCRIPTWITNESS :: bytes where "PSBT_IN_FINAL_SCRIPTWITNESS = [0x08]"
definition PSBT_IN_POR_COMMITMENT :: bytes where "PSBT_IN_POR_COMMITMENT = [0x09]"
definition PSBT_IN_PROPRIETARY :: bytes where "PSBT_IN_PROPRIETARY = [0xFC]"

record 'tx PsbtIn =
  non_witness_utxo :: "'tx option"
  witness_utxo :: "TxOut option"
  partial_signatures :: dict_bytes_bytes
  sighash :: "int option"
  redeem_script :: bytes
  witness_script :: bytes
  bip32_derivs :: dict_bytes_bytes
  final_script_sig :: bytes
  final_script_witness :: "bytes list"
  por_commitment :: "string option"
  proprietary :: proprietary_dict
  unknown :: dict_bytes_bytes

text \<open>\<open>PsbtIn()\<close>: every field at its default.\<close>

definition PsbtIn_default :: "'tx PsbtIn" where
  "PsbtIn_default = \<lparr>non_witness_utxo = None, witness_utxo = None, partial_signatures = [],
     sighash = None, redeem_script = [], witness_script = [], bip32_derivs = [],
     final_script_sig = [], final_script_witness = [], por_commitment = None,
     proprietary = [], unknown = []\<rparr>"

definition py_assert :: "bool \<Rightarrow> string \<Rightarrow> error + unit" where
  "py_assert ok msg = (if ok then Inr () else Inl (AssertionError msg))"

fun u_assert_valid_partial_signatures ::
    "('key, 'prv) externals \<Rightarrow> 'tx psbt_externals \<Rightarrow> dict_bytes_bytes \<Rightarrow> error + unit" where
  "u_assert_valid_partial_signatures X P [] = Inr ()"
| "u_assert_valid_partial_signatures X P ((pubkey, sig) # items) =
     bnd (point_from_octets P pubkey) (\<lambda>pt.
     bnd (deserialize X (SigOctets sig) secp256k1) (\<lambda>rs.
       u_assert_valid_partial_signatures X P items))"

definition PsbtIn_assert_valid ::
    "('key, 'prv) externals \<Rightarrow> 'tx psbt_externals \<Rightarrow> 'tx PsbtIn \<Rightarrow> error + unit" where
  "PsbtIn_assert_valid X P self =
     bnd (case non_witness_utxo self of None \<Rightarrow> Inr () | Some tx \<Rightarrow> Tx_assert_valid P tx) (\<lambda>u.
     bnd (case witness_utxo self of None \<Rightarrow> Inr () | Some tx_out \<Rightarrow> TxOut_assert_valid tx_out) (\<lambda>u.
     bnd (case sighash self of None \<Rightarrow> Inr ()
          | Some h \<Rightarrow> py_assert (h \<in> set (SIGHASHES P)) ''invalid sighash'') (\<lambda>u.
     bnd (case por_commitment self of None \<Rightarrow> Inr ()
          | Some s \<Rightarrow> bnd (utf8_encode P s) (\<lambda>b. py_assert (b \<noteq> []) '''')) (\<lambda>u.
     bnd (u_assert_valid_partial_signatures X P (partial_signatures self)) (\<lambda>u.
     bnd (u_assert_valid_bip32_derivs P (bip32_derivs self)) (\<lambda>u.
     bnd (u_assert_valid_proprietary P (proprietary self)) (\<lambda>u.
       u_assert_valid_unknown P (unknown self))))))))"

text \<open>
  The body of the loop of \<open>PsbtIn.deserialize\<close>, for one item of \<open>input_map\<close>, and the
  loop.
\<close>

definition PsbtIn_deserialize_item ::
    "'tx psbt_externals \<Rightarrow> bytes \<Rightarrow> bytes \<Rightarrow> 'tx PsbtIn \<Rightarrow> error + 'tx PsbtIn" where
  "PsbtIn_deserialize_item P key val out =
     (if take 1 key = PSBT_IN_NON_WITNESS_UTXO then
        bnd (py_assert (length key = 1) ''invalid key length'') (\<lambda>u.
        bnd (Tx_deserialize P val) (\<lambda>tx. Inr (out\<lparr>non_witness_utxo := Some tx\<rparr>)))
      else if take 1 key = PSBT_IN_WITNESS_UTXO then
        bnd (py_assert (length key = 1) ''invalid key length'') (\<lambda>u.
        bnd (TxOut_deserialize val True) (\<lambda>tx_out. Inr (out\<lparr>witness_utxo := Some tx_out\<rparr>)))
      else if take 1 key = PSBT_IN_PARTIAL_SIG then
        bnd (py_assert (length key = 34 \<or> length key = 66) ''invalid pubkey length'') (\<lambda>u.
          Inr (out\<lparr>partial_signatures := dict_set (partial_signatures out) (drop 1 key) val\<rparr>))
      else if take 1 key = PSBT_IN_SIGHASH_TYPE then
        bnd (py_assert (length key = 1) ''invalid key length'') (\<lambda>u.
        bnd (py_assert (length val = 4) '''') (\<lambda>u.
          Inr (out\<lparr>sighash := Some (int_from_bytes_little val)\<rparr>)))
      else if take 1 key = PSBT_IN_FINAL_SCRIPTSIG then
        bnd (py_assert (length key = 1) ''invalid key length'') (\<lambda>u.
          Inr (out\<lparr>final_script_sig := val\<rparr>))
      else if take 1 key = PSBT_IN_FINAL_SCRIPTWITNESS then
        bnd (py_assert (length key = 1) ''invalid key length'') (\<lambda>u.
        bnd (witness_deserialize P val) (\<lambda>wit. Inr (out\<lparr>final_script_witness := wit\<rparr>)))
      else if take 1 key = PSBT_IN_POR_COMMITMENT then
        bnd (py_assert (length key = 1) ''invalid key length'') (\<lambda>u.
        bnd (utf8_decode P val) (\<lambda>s. Inr (out\<lparr>por_commitment := Some s\<rparr>)))
      else if take 1 key = PSBT_IN_REDEEM_SCRIPT then
        bnd (py_assert (length key = 1) ''invalid key length'') (\<lambda>u.
          Inr (out\<lparr>redeem_script := val\<rparr>))
      else if take 1 key = PSBT_IN_WITNESS_SCRIPT then
        bnd (py_assert (length key = 1) ''invalid key length'') (\<lambda>u.
          Inr (out\<lparr>witness_script := val\<rparr>))
      else if take 1 key = PSBT_IN_BIP32_DERIVATION then
        bnd (py_assert (length key = 34 \<or> length key = 66) ''invalid pubkey length'') (\<lambda>u.
          Inr (out\<lparr>bip32_derivs := dict_set (bip32_derivs out) (drop 1 key) val\<rparr>))
      else if take 1 key = PSBT_IN_PROPRIETARY then
        bnd (u_deserialize_proprietary P key val) (\<lambda>prop. Inr (out\<lparr>proprietary := prop\<rparr>))
      else Inr (out\<lparr>unknown := dict_set (unknown out) key val\<rparr>))"

fun PsbtIn_deserialize_loop ::
    "'tx psbt_externals \<Rightarrow> dict_bytes_bytes \<Rightarrow> 'tx PsbtIn \<Rightarrow> error + 'tx PsbtIn" where
  "PsbtIn_deserialize_loop P [] out = Inr out"
| "PsbtIn_deserialize_loop P ((key, val) # items) out =
     bnd (PsbtIn_deserialize_item P key val out) (\<lambda>out. PsbtIn_deserialize_loop P items out)"

definition PsbtIn_deserialize ::
    "('key, 'prv) externals \<Rightarrow> 'tx psbt_externals \<Rightarrow> dict_bytes_bytes \<Rightarrow> bool \<Rightarrow> error + 'tx PsbtIn" where
  "PsbtIn_deserialize X P input_map assert_valid =
     bnd (PsbtIn_deserialize_loop P input_map PsbtIn_default) (\<lambda>out.
     bnd (if assert_valid then PsbtIn_assert_valid X P out else Inr ()) (\<lambda>u.
       Inr out))"

text \<open>
  \<open>PsbtIn.serialize\<close>. Each \<open>if self.field:\<close> is Python's truth test: an object
  (\<open>Tx\<close>, \<open>TxOut\<close>) is true, a number is true when not 0, a string, a list or a dict
  when not empty.
\<close>

definition serialize_field :: "bool \<Rightarrow> bytes \<Rightarrow> (error + bytes) \<Rightarrow> bytes \<Rightarrow> error + bytes" where
  "serialize_field present key payload out =
     (if present then bnd payload (\<lambda>pl. bnd (varbytes_encode pl) (\<lambda>vb. Inr (out @ [0x01] @ key @ vb)))
      else Inr out)"

definition PsbtIn_serialize ::
    "('key, 'prv) externals \<Rightarrow> 'tx psbt_externals \<Rightarrow> 'tx PsbtIn \<Rightarrow> bool \<Rightarrow> error + bytes" where
  "PsbtIn_serialize X P self assert_valid =
     bnd (if assert_valid then PsbtIn_assert_valid X P self else Inr ()) (\<lambda>u.
     bnd (case non_witness_utxo self of None \<Rightarrow> Inr []
          | Some tx \<Rightarrow> serialize_field True PSBT_IN_NON_WITNESS_UTXO (Tx_serialize P tx) []) (\<lambda>out.
     bnd (case witness_utxo self of None \<Rightarrow> Inr out
          | Some tx_out \<Rightarrow> serialize_field True PSBT_IN_WITNESS_UTXO (TxOut_serialize tx_out True) out) (\<lambda>out.
     bnd (if partial_signatures self \<noteq> []
          then bnd (u_serialize_dict_bytes_bytes P (partial_signatures self) PSBT_IN_PARTIAL_SIG)
                 (\<lambda>bs. Inr (out @ bs))
          else Inr out) (\<lambda>out.
     bnd (case sighash self of None \<Rightarrow> Inr out
          | Some h \<Rightarrow> if h \<noteq> 0
              then bnd (int_to_bytes_little h 4) (\<lambda>bs.
                     Inr (out @ [0x01] @ PSBT_IN_SIGHASH_TYPE @ [0x04] @ bs))
              else Inr out) (\<lambda>out.
     bnd (serialize_field (redeem_script self \<noteq> []) PSBT_IN_REDEEM_SCRIPT
            (Inr (redeem_script self)) out) (\<lambda>out.
     bnd (serialize_field (witness_script self \<noteq> []) PSBT_IN_WITNESS_SCRIPT
            (Inr (witness_script self)) out) (\<lambda>out.
     bnd (serialize_field (final_script_sig self \<noteq> []) PSBT_IN_FINAL_SCRIPTSIG
            (Inr (final_script_sig self)) out) (\<lambda>out.
     bnd (serialize_field (final_script_witness self \<noteq> []) PSBT_IN_FINAL_SCRIPTWITNESS
            (witness_serialize P (final_script_witness self)) out) (\<lambda>out.
     bnd (case por_commitment self of None \<Rightarrow> Inr out
          | Some s \<Rightarrow> serialize_field (s \<noteq> []) PSBT_IN_POR_COMMITMENT (utf8_encode P s) out) (\<lambda>out.
     bnd (if bip32_derivs self \<noteq> []
          then bnd (u_serialize_dict_bytes_bytes P (bip32_derivs self) PSBT_IN_BIP32_DERIVATION)
                 (\<lambda>bs. Inr (out @ bs))
          else Inr out) (\<lambda>out.
     bnd (if proprietary self \<noteq> []
          then bnd (u_serialize_proprietary P (proprietary self) PSBT_IN_PROPRIETARY)
                 (\<lambda>bs. Inr (out @ bs))
          else Inr out) (\<lambda>out.
     bnd (if unknown self \<noteq> []
          then bnd (u_serialize_dict_bytes_bytes P (unknown self) []) (\<lambda>bs. Inr (out @ bs))
          else Inr out) (\<lambda>out.
       Inr out)))))))))))))"

section \<open>Values for the examples\<close>

text \<open>
  Stand-ins for the parameters, used where a statement is evaluated at a concrete
  input: keys given as points, private keys as integers of 1..n-1, no DER input, a
  nonce that is a function of \<open>(c, q)\<close>; and a one-byte checksum as hash function.
\<close>

definition ext0 :: "(int \<times> int, int) externals" where
  "ext0 = \<lparr>
     der_deserialize = (\<lambda>der ec. Inl (BTClibValueError ''invalid DER signature'')),
     point_from_key = (\<lambda>Q ec. Inr Q),
     int_from_prvkey = (\<lambda>q ec. if 0 < q \<and> q < ec_n ec then Inr q
        else Inl (BTClibValueError ''private key not in 1..n-1'')),
     rfc6979 = (\<lambda>c q ec hf. Inr (1 + (c + q) mod (ec_n ec - 1)))\<rparr>"

definition hf0 :: HashF where
  "hf0 = \<lparr>hf_digest_size = 1, hf_digest = (\<lambda>msg. [foldl (+) 0 msg])\<rparr>"


text \<open>
  Stand-ins for the parameters of psbt_in.py: a transaction is its serialization, valid
  when not empty; the dict validators accept every dict. And a \<open>PsbtIn\<close> with both
  utxo fields set.
\<close>

definition pext0 :: "bytes psbt_externals" where
  "pext0 = \<lparr>
     Tx_deserialize = (\<lambda>data. if data = [] then Inl (BTClibValueError ''not enough data'') else Inr data),
     Tx_serialize = Inr,
     Tx_assert_valid = (\<lambda>tx. if tx = [] then Inl (BTClibValueError ''invalid transaction'') else Inr ()),
     point_from_octets = (\<lambda>pubkey. if length pubkey = 33 \<or> length pubkey = 65 then Inr (0, 0)
        else Inl (BTClibValueError ''invalid SEC point'')),
     SIGHASHES = [1, 2, 3, 0x81, 0x82, 0x83],
     witness_deserialize = (\<lambda>data. Inr [data]),
     witness_serialize = (\<lambda>wit. Inr (concat wit)),
     u_assert_valid_bip32_derivs = (\<lambda>d. Inr ()),
     u_assert_valid_proprietary = (\<lambda>d. Inr ()),
     u_assert_valid_unknown = (\<lambda>d. Inr ()),
     u_deserialize_proprietary = (\<lambda>key val. Inr [(int (length key), [(map (\<lambda>b. char_of (unat b)) key, map (\<lambda>b. char_of (unat b)) val)])]),
     u_serialize_proprietary = (\<lambda>d m. Inr []),
     u_serialize_dict_bytes_bytes = (\<lambda>d m. Inr []),
     utf8_encode = (\<lambda>s. Inr (map (\<lambda>ch. of_nat (of_char ch)) s)),
     utf8_decode = (\<lambda>bs. Inr (map (\<lambda>b. char_of (unat b)) bs))\<rparr>"


definition psbt_in_both :: "bytes PsbtIn" where
  "psbt_in_both = PsbtIn_default\<lparr>
     non_witness_utxo := Some [0x02, 0x00, 0x00, 0x00],
     witness_utxo := Some \<lparr>txo_value = 10000, txo_script_pubkey = [0x6a, 0x00]\<rparr>\<rparr>"

section \<open>Properties\<close>

subsection \<open>Modular inverses\<close>

lemma xgcd_correct:
  "0 \<le> a \<Longrightarrow> 0 \<le> b \<Longrightarrow> xgcd a b = (g, x, y) \<Longrightarrow> g = gcd a b \<and> a * x + b * y = g"
proof (induction a b arbitrary: g x y rule: xgcd.induct)
  case (1 a b)
  show ?case
  proof (cases "b \<le> 0")
    case True
    with "1.prems" have "b = 0" by simp
    with "1.prems" show ?thesis by (simp add: xgcd.simps [of a 0])
  next
    case False
    obtain g' x' y' where rec: "xgcd b (a mod b) = (g', x', y')"
      by (cases "xgcd b (a mod b)") auto
    from False have pos: "0 \<le> a mod b" by simp
    from "1.IH" [OF False _ pos rec] "1.prems" False
    have ih: "g' = gcd b (a mod b)" "b * x' + (a mod b) * y' = g'" by auto
    from "1.prems"(3) False rec have res: "g = g'" "x = y'" "y = x' - (a div b) * y'"
      by (auto simp: xgcd.simps [of a b])
    have "a * y' + b * (x' - (a div b) * y') = b * x' + (a - b * (a div b)) * y'"
      by (simp add: algebra_simps)
    also have "a - b * (a div b) = a mod b"
      by (simp add: minus_mult_div_eq_mod)
    finally have "a * x + b * y = g" using ih res by simp
    moreover have "g = gcd a b" using ih res by (metis gcd.commute gcd_red_int)
    ultimately show ?thesis by simp
  qed
qed

lemma mod_inv_Inr:
  assumes "mod_inv a m = Inr x"
  shows "1 < m \<and> 0 \<le> x \<and> x < m \<and> a * x mod m = 1"
proof -
  obtain g u v where xg: "xgcd (a mod m) m = (g, u, v)"
    by (cases "xgcd (a mod m) m") auto
  from assms xg have m: "1 < m" and g: "g = 1" and x: "x = u mod m"
    by (auto simp: mod_inv_def split: if_splits)
  from m have "0 \<le> a mod m" "0 \<le> m" by simp_all
  from xgcd_correct [OF this xg] g have "(a mod m) * u + m * v = 1" by simp
  then have "((a mod m) * u + m * v) mod m = 1 mod m" by simp
  then have "(a mod m) * u mod m = 1" using m by simp
  then have "a * (u mod m) mod m = 1" by (simp add: mod_mult_eq mod_mult_left_eq mod_mult_right_eq)
  with m x show ?thesis by simp
qed

lemma mod_inv_coprime:
  assumes "1 < m" "coprime a m"
  shows "\<exists>x. mod_inv a m = Inr x"
proof -
  obtain g u v where xg: "xgcd (a mod m) m = (g, u, v)"
    by (cases "xgcd (a mod m) m") auto
  from assms have "0 \<le> a mod m" "0 \<le> m" by simp_all
  from xgcd_correct [OF this xg] have "g = gcd (a mod m) m" by simp
  also have "\<dots> = gcd a m" by (metis gcd.commute gcd_red_int)
  finally have "g = 1" using assms by simp
  with xg assms show ?thesis by (simp add: mod_inv_def)
qed

lemma prime_order_coprime:
  assumes "prime_order n" "\<not> n dvd x"
  shows "coprime x n"
proof -
  from assms have n: "1 < n" and nd: "\<And>d. 2 \<le> d \<Longrightarrow> d < n \<Longrightarrow> \<not> d dvd n"
    by (auto simp: prime_order_def list_all_iff)
  let ?g = "gcd x n"
  have g0: "0 < ?g" using n by (simp add: gcd_pos_int)
  have gle: "?g \<le> n" using n by (intro zdvd_imp_le) simp_all
  have "?g \<noteq> n" using assms(2) by (metis gcd_dvd1)
  with gle have "?g < n" by simp
  with nd [of ?g] have "\<not> 2 \<le> ?g" by auto
  with g0 have "?g = 1" by linarith
  then show ?thesis by (simp add: coprime_iff_gcd_eq_1)
qed



subsection \<open>Results and Python numbers\<close>

lemma bnd_Inr_iff: "bnd m f = Inr y \<longleftrightarrow> (\<exists>x. m = Inr x \<and> f x = Inr y)"
  by (cases m) simp_all

text \<open>
  \<open>bit_length\<close> is the position of the leading bit. For \<open>0 < n < 2^53\<close> the
  quotient \<open>n / 2\<close> is a binary64 exactly, so \<open>s > n / 2\<close> on it is the
  comparison of integers \<open>2 * s > n\<close>.
\<close>

lemma bit_length_bounds:
  "0 < i \<Longrightarrow> 2 ^ bit_length i \<le> 2 * i \<and> i < 2 ^ bit_length i"
proof (induction i rule: bit_length.induct)
  case (1 i)
  show ?case
  proof (cases "i div 2 = 0")
    case True
    with 1 have i: "i = 1" by presburger
    have "bit_length 1 = Suc 0"
      by (simp add: bit_length.simps [of 1] bit_length.simps [of 0])
    with i show ?thesis by simp
  next
    case False
    with 1 have pos: "0 < \<bar>i\<bar> div 2" by presburger
    from 1 have ne: "i \<noteq> 0" by simp
    from "1.prems" have ab: "\<bar>i\<bar> = i" by simp
    from "1.IH" [OF ne pos] ab
    have ih: "2 ^ bit_length (i div 2) \<le> 2 * (i div 2)" "i div 2 < 2 ^ bit_length (i div 2)"
      by simp_all
    have bl: "bit_length i = Suc (bit_length (i div 2))"
      using ne ab by (simp add: bit_length.simps [of i])
    from ih show ?thesis unfolding bl by (simp; presburger)
  qed
qed

lemma round_half_even_dvd: "0 < d \<Longrightarrow> d dvd c \<Longrightarrow> round_half_even c d = c div d"
  by (auto simp: round_half_even_def Let_def)

lemma bit_length_2: "bit_length 2 = 2"
  by (simp add: bit_length.simps [of 2] bit_length.simps [of 1] bit_length.simps [of 0])

lemma truediv_2_exact:
  assumes n: "0 < n" "n < 2 ^ 53"
  shows "\<exists>m e. truediv n 2 = Inr (Float m e) \<and> (\<forall>s. int_gt_float s (Float m e) \<longleftrightarrow> n < 2 * s)"
proof -
  define L where "L = bit_length n"
  from bit_length_bounds [OF n(1)] have b: "2 ^ L \<le> 2 * n" "n < 2 ^ L"
    by (simp_all add: L_def)
  have L1: "1 \<le> L"
  proof (rule ccontr)
    assume "\<not> 1 \<le> L"
    then have "L = 0" by simp
    with b(2) n(1) show False by simp
  qed
  have L53: "L \<le> 53"
  proof (rule ccontr)
    assume "\<not> L \<le> 53"
    then have "54 \<le> L" by simp
    then have "(2::int) ^ 54 \<le> 2 ^ L" by (rule power_increasing) simp
    with b(1) n(2) show False by simp
  qed
  have ex: "truediv_exp n 2 = int L - 54"
  proof (cases "L = 1")
    case True
    with n show ?thesis
      by (simp add: truediv_exp_def Let_def bit_length_2 L_def [symmetric])
  next
    case False
    with L1 have L2: "2 \<le> L" by simp
    then obtain j where j: "L = Suc (Suc j)" by (metis Suc_leD Suc_le_D numeral_2_eq_2 Suc_le_mono)
    with b(1) have "2 * 2 ^ j \<le> n" by simp
    with n j show ?thesis
      by (simp add: truediv_exp_def Let_def bit_length_2 L_def [symmetric] nat_diff_distrib)
  qed
  define t where "t = 53 - L"
  have ne: "nat (- (int L - 54)) = Suc t" "nat (int L - 54) = 0" "nat (54 - int L) = Suc t"
    using L53 by (simp_all add: t_def)
  have Lt: "L + t = 53" using L53 by (simp add: t_def)
  have m: "round_half_even (\<bar>n\<bar> * 2 ^ Suc t) (\<bar>2\<bar> * 2 ^ 0) = n * 2 ^ t"
    using n by (subst round_half_even_dvd) simp_all
  have "n * 2 ^ t < 2 ^ L * 2 ^ t" using b(2) by simp
  also have "\<dots> = 2 ^ 53" using Lt by (simp flip: power_add)
  finally have small: "n * 2 ^ t < 2 ^ 53" .
  have "(2::int) ^ 53 < 2 ^ 1024" by simp
  with small have ov: "\<not> 2 ^ 1024 \<le> n * 2 ^ t" by linarith
  have td: "truediv n 2 = Inr (Float (n * 2 ^ t) (int L - 54))"
    using n ov m by (simp add: truediv_def ex Let_def ne)
  have "int_gt_float s (Float (n * 2 ^ t) (int L - 54)) \<longleftrightarrow> n < 2 * s" for s
    by (simp add: ne mult.commute)
  with td show ?thesis by blast
qed


subsection \<open>dsa.py: signing\<close>

text \<open>
  C1 (fails on the code). The claim: with \<open>low_s\<close>, the \<open>s\<close> that \<open>__sign\<close> returns is
  at most \<open>n/2\<close>. The source tests \<open>s > ec.n / 2\<close>, a float division: on secp256k1
  \<open>ec.n / 2\<close> is the float \<open>2^255\<close>, above \<open>n/2\<close>, and an \<open>s\<close> between the two is
  returned as it is. Here \<open>k = 1\<close>, \<open>q = 1\<close>, and \<open>c\<close> makes \<open>s = (n + 1) / 2\<close>.
\<close>

theorem sign_low_s_secp256k1:
  "uu_sign 0x641998106234453aa5f9d6a3178f4f85abb719829d6274485f6adeb51230909 1 1 True secp256k1
     = Inr (0x79BE667EF9DCBBAC55A06295CE870B07029BFCDB2DCE28D959F2815B16F81798,
            0x7fffffffffffffffffffffffffffffff5d576e7357a4501ddfe92f46681b20a1)
   \<and> ec_n secp256k1 < 2 * 0x7fffffffffffffffffffffffffffffff5d576e7357a4501ddfe92f46681b20a1"
  by code_simp

text \<open>
  What \<open>__sign\<close> and \<open>sign\<close> do give: \<open>r\<close> and \<open>s\<close> are in
  \<open>[1, n-1]\<close>, and with \<open>low_s\<close> on a curve of order below \<open>2^53\<close>, where
  the float division loses nothing, \<open>s\<close> is at most \<open>n/2\<close>.
\<close>

lemma uu_sign_Inr:
  assumes "uu_sign c q k low_s ec = Inr (r, s)"
  shows "\<exists>ki s0. mod_inv k (ec_n ec) = Inr ki \<and> r mod ec_n ec = r \<and> r \<noteq> 0
    \<and> s0 = ki * (c + r * q) mod ec_n ec \<and> s0 \<noteq> 0
    \<and> (if low_s
        then \<exists>half. truediv (ec_n ec) 2 = Inr half
          \<and> s = (if int_gt_float s0 half then ec_n ec - s0 else s0)
        else s = s0)"
proof -
  obtain KX KY KZ where KJ: "u_mult k (ec_GJ ec) ec = Inr (KX, KY, KZ)"
    using assms by (cases "u_mult k (ec_GJ ec) ec") (auto simp: uu_sign_def)
  obtain zi where zi: "mod_inv (KZ * KZ) (ec_p ec) = Inr zi"
    using assms KJ by (cases "mod_inv (KZ * KZ) (ec_p ec)") (auto simp: uu_sign_def)
  define r' where "r' = (KX * zi) mod ec_p ec mod ec_n ec"
  have r0: "r' \<noteq> 0"
    using assms KJ zi by (auto simp: uu_sign_def Let_def r'_def split: if_splits)
  obtain ki where ki: "mod_inv k (ec_n ec) = Inr ki"
    using assms KJ zi r0
    by (cases "mod_inv k (ec_n ec)") (auto simp: uu_sign_def Let_def r'_def)
  define s0 where "s0 = ki * (c + r' * q) mod ec_n ec"
  have s0: "s0 \<noteq> 0"
    using assms KJ zi r0 ki by (auto simp: uu_sign_def Let_def r'_def s0_def split: if_splits)
  have 5: "(if low_s
            then bnd (truediv (ec_n ec) 2) (\<lambda>half.
                   if int_gt_float s0 half then Inr (r', ec_n ec - s0) else Inr (r', s0))
            else Inr (r', s0)) = Inr (r, s)"
    using assms KJ zi r0 ki s0 unfolding r'_def s0_def by (simp add: uu_sign_def Let_def)
  have rr: "r = r'"
    using 5 by (auto simp: bnd_Inr_iff split: if_splits)
  have a: "r mod ec_n ec = r" unfolding rr r'_def by simp
  have b: "s = s0" if "\<not> low_s" using 5 that by simp
  have c: "\<exists>half. truediv (ec_n ec) 2 = Inr half
        \<and> s = (if int_gt_float s0 half then ec_n ec - s0 else s0)" if "low_s"
    using 5 that by (auto simp: bnd_Inr_iff split: if_splits)
  from ki a r0 s0_def s0 b c show ?thesis
    unfolding rr [symmetric] by (intro exI [of _ ki] exI [of _ s0]) simp
qed

lemma uu_sign_range:
  assumes "uu_sign c q k low_s ec = Inr (r, s)"
  shows "0 < r \<and> r < ec_n ec \<and> 0 < s \<and> s < ec_n ec"
proof -
  from uu_sign_Inr [OF assms] obtain ki s0 where ki: "mod_inv k (ec_n ec) = Inr ki"
    and r: "r mod ec_n ec = r" "r \<noteq> 0"
    and s0: "s0 = ki * (c + r * q) mod ec_n ec" "s0 \<noteq> 0"
    and s: "\<not> low_s \<Longrightarrow> s = s0" "low_s \<Longrightarrow> \<exists>half. truediv (ec_n ec) 2 = Inr half
        \<and> s = (if int_gt_float s0 half then ec_n ec - s0 else s0)"
    by (auto split: if_splits)
  from mod_inv_Inr [OF ki] have n: "1 < ec_n ec" by simp
  then have "0 \<le> r mod ec_n ec" "r mod ec_n ec < ec_n ec" by simp_all
  with r have rr: "0 < r" "r < ec_n ec" by simp_all
  from n have "0 \<le> s0" "s0 < ec_n ec" unfolding s0(1) by simp_all
  with s0(2) have ss: "0 < s0" "s0 < ec_n ec" by simp_all
  have "0 < s \<and> s < ec_n ec"
  proof (cases low_s)
    case False
    with s(1) ss show ?thesis by simp
  next
    case True
    with s(2) ss show ?thesis by (auto split: if_splits)
  qed
  with rr show ?thesis by simp
qed

lemma uu_sign_low_s_small_order:
  assumes "uu_sign c q k True ec = Inr (r, s)" and small: "ec_n ec < 2 ^ 53"
  shows "2 * s \<le> ec_n ec"
proof -
  from uu_sign_Inr [OF assms(1)] obtain ki s0 half where ki: "mod_inv k (ec_n ec) = Inr ki"
    and h: "truediv (ec_n ec) 2 = Inr half"
    and s: "s = (if int_gt_float s0 half then ec_n ec - s0 else s0)"
    by auto
  from mod_inv_Inr [OF ki] have n: "0 < ec_n ec" by simp
  from truediv_2_exact [OF n small] obtain m e where
    td: "truediv (ec_n ec) 2 = Inr (Float m e)"
    and gt: "\<And>s. int_gt_float s (Float m e) \<longleftrightarrow> ec_n ec < 2 * s" by blast
  from h td have "half = Float m e" by simp
  with s gt [of s0] show ?thesis by (simp split: if_splits)
qed

lemma sign_Inr:
  assumes "sign X msg prvkey low_s ec hf = Inr rs"
  shows "\<exists>c q k. challenge msg ec hf = Inr c \<and> int_from_prvkey X prvkey ec = Inr q
    \<and> rfc6979 X c q ec hf = Inr k \<and> uu_sign c q k low_s ec = Inr rs"
  using assms
  by (auto simp: sign_def u_sign_def challenge_def u_challenge_def bnd_Inr_iff
      bytes_from_octets_def split: if_splits)

lemma sign_range:
  assumes "sign X msg prvkey low_s ec hf = Inr (r, s)"
  shows "0 < r \<and> r < ec_n ec \<and> 0 < s \<and> s < ec_n ec"
proof -
  from sign_Inr [OF assms] obtain c q k where "uu_sign c q k low_s ec = Inr (r, s)" by blast
  then show ?thesis by (rule uu_sign_range)
qed

lemma sign_low_s_small_order:
  assumes "sign X msg prvkey True ec hf = Inr (r, s)" and "ec_n ec < 2 ^ 53"
  shows "2 * s \<le> ec_n ec"
proof -
  from sign_Inr [OF assms(1)] obtain c q k where "uu_sign c q k True ec = Inr (r, s)" by blast
  from this assms(2) show ?thesis by (rule uu_sign_low_s_small_order)
qed


subsection \<open>dsa.py: verification\<close>



subsection \<open>dsa.py: private key from two signatures\<close>

text \<open>
  C2 (as amended). \<open>_crack_prvkey\<close> and \<open>crack_prvkey\<close> raise when the two signatures
  have different \<open>r\<close> or the same \<open>s\<close>.
\<close>

theorem crack_prvkey_rejects:
  assumes "deserialize X sig1 ec = Inr (r_1, s_1)"
    and "deserialize X sig2 ec = Inr (r_2, s_2)"
    and "r_1 \<noteq> r_2 \<or> s_1 = s_2"
  shows "(\<exists>e. u_crack_prvkey X m_1 sig1 m_2 sig2 ec hf = Inl e)
    \<and> (\<exists>e. crack_prvkey X msg1 sig1 msg2 sig2 ec hf = Inl e)"
  using assms by (auto simp: crack_prvkey_def u_crack_prvkey_def)


theorem crack_prvkey_rejects_witness:
  "deserialize ext0 (SigTuple 8 4) ec11_13 = Inr (8, 4)
   \<and> deserialize ext0 (SigTuple 5 7) ec11_13 = Inr (5, 7)
   \<and> (8::int) \<noteq> 5
   \<and> (\<exists>e. u_crack_prvkey ext0 [0x30] (SigTuple 8 4) [0x50] (SigTuple 5 7) ec11_13 hf0 = Inl e)
   \<and> (\<exists>e. crack_prvkey ext0 [0x30] (SigTuple 8 4) [0x50] (SigTuple 5 7) ec11_13 hf0 = Inl e)"
proof -
  have d1: "deserialize ext0 (SigTuple 8 4) ec11_13 = Inr (8, 4)"
    by (simp add: deserialize_def u_validate_sig_def ec11_13_def)
  have d2: "deserialize ext0 (SigTuple 5 7) ec11_13 = Inr (5, 7)"
    by (simp add: deserialize_def u_validate_sig_def ec11_13_def)
  have h: "(8::int) \<noteq> 5 \<or> (4::int) = 7" by simp
  from crack_prvkey_rejects [OF d1 d2 h, of "[0x30]" "[0x50]" hf0 "[0x30]" "[0x50]"] d1 d2
  show ?thesis by simp
qed


text \<open>
  C2 (as stated, fails). Equal challenges are not rejected: the same message with two
  signatures of the same \<open>r\<close> and different \<open>s\<close> gives the pair \<open>(q, 0)\<close>.
\<close>

theorem crack_prvkey_equal_challenges:
  "u_challenge [0x30] ec11_13 hf0 = Inr 3
   \<and> u_crack_prvkey ext0 [0x30] (SigTuple 8 4) [0x30] (SigTuple 8 7) ec11_13 hf0 = Inr (11, 0)
   \<and> challenge [0x30] ec11_13 hf0 = Inr 3
   \<and> crack_prvkey ext0 [0x30] (SigTuple 8 4) [0x30] (SigTuple 8 7) ec11_13 hf0 = Inr (11, 0)"
  by code_simp


text \<open>The recovery on pre-digested messages, from which C3 follows.\<close>

lemma u_crack_prvkey_recovers:
  assumes po: "prime_order (ec_n ec)"
    and q: "0 < q" "q < ec_n ec" and k: "0 < k" "k < ec_n ec" and r: "0 < r" "r < ec_n ec"
    and c1: "u_challenge m_1 ec hf = Inr c_1" and c2: "u_challenge m_2 ec hf = Inr c_2"
    and ne: "c_1 \<noteq> c_2"
    and ki: "mod_inv k (ec_n ec) = Inr ki"
    and s1: "s_1 = ki * (c_1 + r * q) mod ec_n ec" and s2: "s_2 = ki * (c_2 + r * q) mod ec_n ec"
    and nz: "s_1 \<noteq> 0" "s_2 \<noteq> 0"
  shows "\<exists>si ri. mod_inv (s_1 - s_2) (ec_n ec) = Inr si \<and> mod_inv r (ec_n ec) = Inr ri
      \<and> k = (c_1 - c_2) * si mod ec_n ec \<and> q = (s_2 * k - c_2) * ri mod ec_n ec
      \<and> u_crack_prvkey X m_1 (SigTuple r s_1) m_2 (SigTuple r s_2) ec hf = Inr (q, k)"
proof -
  let ?n = "ec_n ec"
  from po have n: "1 < ?n" by (simp add: prime_order_def)
  from c1 have len1: "length m_1 = hf_digest_size hf" and c1': "c_1 = c_1 mod ?n"
    by (auto simp: u_challenge_def bytes_from_octets_def split: if_splits)
  from c2 have len2: "length m_2 = hf_digest_size hf" and c2': "c_2 = c_2 mod ?n"
    by (auto simp: u_challenge_def bytes_from_octets_def split: if_splits)
  from c1' c2' n have cr: "0 \<le> c_1" "c_1 < ?n" "0 \<le> c_2" "c_2 < ?n"
    by (metis pos_mod_sign less_trans zero_less_one, metis pos_mod_bound less_trans zero_less_one,
        metis pos_mod_sign less_trans zero_less_one, metis pos_mod_bound less_trans zero_less_one)
  from mod_inv_Inr [OF ki] have "k * ki mod ?n = 1 mod ?n" using n by simp
  then have A: "?n dvd (k * ki - 1)" by (simp add: mod_eq_dvd_iff)
  have B1: "?n dvd (s_1 - ki * (c_1 + r * q))"
    unfolding s1 by (simp add: mod_eq_dvd_iff [symmetric])
  have B2: "?n dvd (s_2 - ki * (c_2 + r * q))"
    unfolding s2 by (simp add: mod_eq_dvd_iff [symmetric])
  have "0 \<le> s_1" "0 \<le> s_2" and sb: "s_1 < ?n" "s_2 < ?n"
    using n unfolding s1 s2 by simp_all
  with nz have sr: "0 < s_1" "s_1 < ?n" "0 < s_2" "s_2 < ?n"
    by simp_all
  have vs: "u_validate_sig r s_1 ec = Inr ()" "u_validate_sig r s_2 ec = Inr ()"
    using r sr by (simp_all add: u_validate_sig_def)
  have E: "?n dvd ((c_1 - c_2) - k * (s_1 - s_2))"
    using A B1 B2 by algebra
  have nd: "\<not> ?n dvd (s_1 - s_2)"
  proof
    assume "?n dvd (s_1 - s_2)"
    with E have "?n dvd (c_1 - c_2)" by algebra
    then have "c_1 mod ?n = c_2 mod ?n" by (simp add: mod_eq_dvd_iff)
    with c1' c2' ne show False by simp
  qed
  then have sne: "s_1 \<noteq> s_2" by auto
  from mod_inv_coprime [OF n prime_order_coprime [OF po nd]]
  obtain si where si: "mod_inv (s_1 - s_2) ?n = Inr si" by blast
  from mod_inv_Inr [OF si] have "(s_1 - s_2) * si mod ?n = 1 mod ?n" using n by simp
  then have C: "?n dvd ((s_1 - s_2) * si - 1)" by (simp add: mod_eq_dvd_iff)
  have "\<not> ?n dvd r" using r by (auto dest: zdvd_imp_le)
  from mod_inv_coprime [OF n prime_order_coprime [OF po this]]
  obtain ri where ri: "mod_inv r ?n = Inr ri" by blast
  from mod_inv_Inr [OF ri] have "r * ri mod ?n = 1 mod ?n" using n by simp
  then have D: "?n dvd (r * ri - 1)" by (simp add: mod_eq_dvd_iff)
  have "?n dvd ((c_1 - c_2) * si - k)" using A B1 B2 C by algebra
  then have "(c_1 - c_2) * si mod ?n = k mod ?n" by (simp add: mod_eq_dvd_iff)
  with k have keq: "(c_1 - c_2) * si mod ?n = k" by simp
  have "?n dvd ((s_2 * k - c_2) * ri - q)" using A B2 D by algebra
  then have "(s_2 * k - c_2) * ri mod ?n = q mod ?n" by (simp add: mod_eq_dvd_iff)
  with q have qeq: "(s_2 * k - c_2) * ri mod ?n = q" by simp
  have "u_crack_prvkey X m_1 (SigTuple r s_1) m_2 (SigTuple r s_2) ec hf = Inr (q, k)"
    using vs sne len1 len2 c1 c2 si ri keq qeq
    by (simp add: u_crack_prvkey_def deserialize_def bytes_from_octets_def)
  with si ri keq qeq show ?thesis by simp
qed

text \<open>
  C3. Two signatures \<open>(r, s_1)\<close>, \<open>(r, s_2)\<close> with
  \<open>s_i = k^-1 * (c_i + r * q) mod n\<close> for the same \<open>k\<close> and \<open>q\<close> of 1..n-1 and
  different challenges: \<open>crack_prvkey\<close> returns \<open>(q, k)\<close>, with
  \<open>k = (c_1 - c_2) * (s_1 - s_2)^-1 mod n\<close> and \<open>q = (s_2 * k - c_2) * r^-1 mod n\<close>.
\<close>

theorem crack_prvkey_recovers:
  assumes "prime_order (ec_n ec)"
    and "0 < q" "q < ec_n ec" "0 < k" "k < ec_n ec" "0 < r" "r < ec_n ec"
    and "challenge msg1 ec hf = Inr c_1" "challenge msg2 ec hf = Inr c_2"
    and "c_1 \<noteq> c_2"
    and "mod_inv k (ec_n ec) = Inr ki"
    and "s_1 = ki * (c_1 + r * q) mod ec_n ec" "s_2 = ki * (c_2 + r * q) mod ec_n ec"
    and "s_1 \<noteq> 0" "s_2 \<noteq> 0"
  shows "\<exists>si ri. mod_inv (s_1 - s_2) (ec_n ec) = Inr si \<and> mod_inv r (ec_n ec) = Inr ri
      \<and> k = (c_1 - c_2) * si mod ec_n ec \<and> q = (s_2 * k - c_2) * ri mod ec_n ec
      \<and> crack_prvkey X msg1 (SigTuple r s_1) msg2 (SigTuple r s_2) ec hf = Inr (q, k)"
  using u_crack_prvkey_recovers [of ec q k r "reduce_to_hlen msg1 hf" hf c_1
      "reduce_to_hlen msg2 hf" c_2 ki s_1 s_2 X] assms
  by (simp add: crack_prvkey_def challenge_def)


theorem crack_prvkey_recovers_witness:
  "prime_order (ec_n ec11_13)
   \<and> (0::int) < 7 \<and> 7 < ec_n ec11_13 \<and> (0::int) < 5 \<and> 5 < ec_n ec11_13
   \<and> (0::int) < 8 \<and> 8 < ec_n ec11_13
   \<and> challenge [0x30] ec11_13 hf0 = Inr 3 \<and> challenge [0x50] ec11_13 hf0 = Inr 5
   \<and> (3::int) \<noteq> 5
   \<and> mod_inv 5 (ec_n ec11_13) = Inr 8
   \<and> uu_sign 3 7 5 False ec11_13 = Inr (8, 4) \<and> uu_sign 5 7 5 False ec11_13 = Inr (8, 7)
   \<and> (4::int) = 8 * (3 + 8 * 7) mod ec_n ec11_13 \<and> (7::int) = 8 * (5 + 8 * 7) mod ec_n ec11_13
   \<and> crack_prvkey ext0 [0x30] (SigTuple 8 4) [0x50] (SigTuple 8 7) ec11_13 hf0 = Inr (7, 5)"
proof -
  have po: "prime_order (ec_n ec11_13)" by code_simp
  have rg: "(0::int) < 7" "7 < ec_n ec11_13" "(0::int) < 5" "5 < ec_n ec11_13"
      "(0::int) < 8" "8 < ec_n ec11_13"
    by (simp_all add: ec11_13_def)
  have c1: "challenge [0x30] ec11_13 hf0 = Inr 3" by code_simp
  have c2: "challenge [0x50] ec11_13 hf0 = Inr 5" by code_simp
  have ne: "(3::int) \<noteq> 5" by simp
  have ki: "mod_inv 5 (ec_n ec11_13) = Inr 8" by code_simp
  have sg: "uu_sign 3 7 5 False ec11_13 = Inr (8, 4)" "uu_sign 5 7 5 False ec11_13 = Inr (8, 7)"
    by code_simp+
  have s1: "(4::int) = 8 * (3 + 8 * 7) mod ec_n ec11_13" by (simp add: ec11_13_def)
  have s2: "(7::int) = 8 * (5 + 8 * 7) mod ec_n ec11_13" by (simp add: ec11_13_def)
  have nz: "(4::int) \<noteq> 0" "(7::int) \<noteq> 0" by simp_all
  from crack_prvkey_recovers [OF po rg c1 c2 ne ki s1 s2 nz, of ext0]
  have "crack_prvkey ext0 [0x30] (SigTuple 8 4) [0x50] (SigTuple 8 7) ec11_13 hf0 = Inr (7, 5)"
    by blast
  with po rg c1 c2 ki sg s1 s2 show ?thesis by simp
qed

subsection \<open>dsa.py: public key recovery\<close>















subsection \<open>tx_out.py\<close>

lemma int_from_bytes_little_bounds:
  "0 \<le> int_from_bytes_little bs \<and> int_from_bytes_little bs < 256 ^ length bs"
proof (induction bs)
  case Nil
  show ?case by simp
next
  case (Cons b bs)
  have "0 \<le> uint b" "uint b < 256" using uint_lt2p [of b] by simp_all
  with Cons show ?case by auto
qed

lemma varbytes_decode_nonempty: "varbytes_decode stream = Inr r \<Longrightarrow> 0 < length stream"
  by (auto simp: varbytes_decode_def varint_decode_def read_exactly_def bnd_Inr_iff split: if_splits)

text \<open>
  C10. \<open>TxOut.deserialize\<close> reads the value from the first 8 bytes, little endian and
  unsigned: a \<open>TxOut\<close> it returns has a value of 0..2^64-1, at most \<open>MAX_SATOSHI\<close> under
  \<open>assert_valid\<close>, and the data had more than 8 bytes; the error "negative value" of
  \<open>assert_valid\<close> is never what \<open>deserialize\<close> raises.
\<close>

theorem TxOut_deserialize_value_range:
  "(\<forall>t. TxOut_deserialize data assert_valid = Inr t \<longrightarrow>
       8 < length data \<and> txo_value t = int_from_bytes_little (take 8 data)
       \<and> 0 \<le> txo_value t \<and> txo_value t < 2 ^ 64
       \<and> (assert_valid \<longrightarrow> txo_value t \<le> MAX_SATOSHI))
   \<and> TxOut_deserialize data assert_valid \<noteq> Inl (BTClibValueError ''negative value'')"
proof (intro conjI allI impI)
  fix t
  assume d: "TxOut_deserialize data assert_valid = Inr t"
  then obtain sp st where vd: "varbytes_decode (drop 8 data) = Inr (sp, st)"
    and v: "txo_value t = int_from_bytes_little (take 8 data)"
    and av: "assert_valid \<Longrightarrow> TxOut_assert_valid t = Inr ()"
    by (auto simp: TxOut_deserialize_def stream_read_def Let_def bnd_Inr_iff split: if_splits)
  from varbytes_decode_nonempty [OF vd] show "8 < length data" by simp
  show "txo_value t = int_from_bytes_little (take 8 data)" by (rule v)
  from int_from_bytes_little_bounds [of "take 8 data"] v
  show "0 \<le> txo_value t" by simp
  have "(256::int) ^ length (take 8 data) \<le> 256 ^ 8" by (intro power_increasing) simp_all
  with int_from_bytes_little_bounds [of "take 8 data"] v
  show "txo_value t < 2 ^ 64" by simp
  show "txo_value t \<le> MAX_SATOSHI" if "assert_valid"
    using av [OF that] by (simp add: TxOut_assert_valid_def split: if_splits)
next
  show "TxOut_deserialize data assert_valid \<noteq> Inl (BTClibValueError ''negative value'')"
  proof
    assume e: "TxOut_deserialize data assert_valid = Inl (BTClibValueError ''negative value'')"
    have nn: "\<not> int_from_bytes_little (take 8 data) < 0"
      using int_from_bytes_little_bounds [of "take 8 data"] by simp
    from e show False
      by (auto simp: TxOut_deserialize_def stream_read_def Let_def TxOut_assert_valid_def nn
            varbytes_decode_def varint_decode_def read_exactly_def
          split: sum.splits if_splits prod.splits)
  qed
qed


theorem TxOut_deserialize_value_range_witness:
  "TxOut_deserialize [0x10, 0x27, 0, 0, 0, 0, 0, 0, 2, 0x6a, 0x00] True
     = Inr \<lparr>txo_value = 10000, txo_script_pubkey = [0x6a, 0x00]\<rparr>
   \<and> 8 < length [0x10, 0x27, 0, 0, 0, 0, 0, 0, 2, 0x6a, 0x00 :: 8 word]
   \<and> int_from_bytes_little (take 8 [0x10, 0x27, 0, 0, 0, 0, 0, 0, 2, 0x6a, 0x00]) = 10000
   \<and> (10000::int) < 2 ^ 64 \<and> 10000 \<le> MAX_SATOSHI"
proof -
  have d: "TxOut_deserialize [0x10, 0x27, 0, 0, 0, 0, 0, 0, 2, 0x6a, 0x00] True
     = Inr \<lparr>txo_value = 10000, txo_script_pubkey = [0x6a, 0x00]\<rparr>"
    by code_simp
  from TxOut_deserialize_value_range [of "[0x10, 0x27, 0, 0, 0, 0, 0, 0, 2, 0x6a, 0x00]" True] d
  show ?thesis by simp
qed

subsection \<open>amount.py\<close>























declare dec_less.simps(1) [simp del]













lemma sats_from_btc_float_too_many_decimals:
  "sats_from_btc (PyFloat ''0.123456789'')
     = Inl (BTClibValueError ''too many decimals for a BTC amount'')"
  by code_simp

subsection \<open>psbt_in.py\<close>

text \<open>What \<open>assert_valid\<close> checks, check by check.\<close>

lemma PsbtIn_assert_valid_iff:
  "PsbtIn_assert_valid X P self = Inr () \<longleftrightarrow>
     (case non_witness_utxo self of None \<Rightarrow> True | Some tx \<Rightarrow> Tx_assert_valid P tx = Inr ())
   \<and> (case witness_utxo self of None \<Rightarrow> True | Some tx_out \<Rightarrow> TxOut_assert_valid tx_out = Inr ())
   \<and> (case sighash self of None \<Rightarrow> True | Some h \<Rightarrow> h \<in> set (SIGHASHES P))
   \<and> (case por_commitment self of None \<Rightarrow> True
       | Some s \<Rightarrow> (\<exists>b. utf8_encode P s = Inr b \<and> b \<noteq> []))
   \<and> u_assert_valid_partial_signatures X P (partial_signatures self) = Inr ()
   \<and> u_assert_valid_bip32_derivs P (bip32_derivs self) = Inr ()
   \<and> u_assert_valid_proprietary P (proprietary self) = Inr ()
   \<and> u_assert_valid_unknown P (unknown self) = Inr ()"
  by (auto simp: PsbtIn_assert_valid_def bnd_Inr_iff py_assert_def split: option.splits if_splits)

text \<open>
  C8 (as amended). A \<open>PsbtIn\<close> that \<open>assert_valid\<close> accepts, hence one that
  \<open>serialize\<close> or \<open>deserialize\<close> with \<open>assert_valid=True\<close> accepts, has each of
  \<open>non_witness_utxo\<close> and \<open>witness_utxo\<close> valid on its own where it is set. Nothing
  checks that only one is set: with both set and each valid, a \<open>PsbtIn\<close> is accepted as
  it is without them.
\<close>

theorem PsbtIn_valid_utxos:
  "(PsbtIn_assert_valid X P self = Inr () \<longrightarrow>
       (\<forall>tx. non_witness_utxo self = Some tx \<longrightarrow> Tx_assert_valid P tx = Inr ())
     \<and> (\<forall>tx_out. witness_utxo self = Some tx_out \<longrightarrow>
           0 \<le> txo_value tx_out \<and> txo_value tx_out \<le> MAX_SATOSHI))
   \<and> (PsbtIn_serialize X P self True = Inr data \<longrightarrow> PsbtIn_assert_valid X P self = Inr ())
   \<and> (PsbtIn_deserialize X P input_map True = Inr self \<longrightarrow> PsbtIn_assert_valid X P self = Inr ())
   \<and> (Tx_assert_valid P tx = Inr () \<and> TxOut_assert_valid tx_out = Inr ()
        \<and> PsbtIn_assert_valid X P (self\<lparr>non_witness_utxo := None, witness_utxo := None\<rparr>) = Inr ()
      \<longrightarrow> PsbtIn_assert_valid X P (self\<lparr>non_witness_utxo := Some tx, witness_utxo := Some tx_out\<rparr>) = Inr ())"
proof (intro conjI impI allI)
  assume v: "PsbtIn_assert_valid X P self = Inr ()"
  { fix tx assume "non_witness_utxo self = Some tx"
    with v show "Tx_assert_valid P tx = Inr ()" by (simp add: PsbtIn_assert_valid_iff) }
  { fix tx_out assume "witness_utxo self = Some tx_out"
    with v have "TxOut_assert_valid tx_out = Inr ()" by (simp add: PsbtIn_assert_valid_iff)
    then show "0 \<le> txo_value tx_out" "txo_value tx_out \<le> MAX_SATOSHI"
      by (simp_all add: TxOut_assert_valid_def split: if_splits) }
next
  assume "PsbtIn_serialize X P self True = Inr data"
  then show "PsbtIn_assert_valid X P self = Inr ()"
    by (simp add: PsbtIn_serialize_def bnd_Inr_iff)
next
  assume "PsbtIn_deserialize X P input_map True = Inr self"
  then show "PsbtIn_assert_valid X P self = Inr ()"
    by (auto simp: PsbtIn_deserialize_def bnd_Inr_iff)
next
  assume "Tx_assert_valid P tx = Inr () \<and> TxOut_assert_valid tx_out = Inr ()
        \<and> PsbtIn_assert_valid X P (self\<lparr>non_witness_utxo := None, witness_utxo := None\<rparr>) = Inr ()"
  then show "PsbtIn_assert_valid X P (self\<lparr>non_witness_utxo := Some tx, witness_utxo := Some tx_out\<rparr>) = Inr ()"
    by (simp add: PsbtIn_assert_valid_iff)
qed


theorem PsbtIn_valid_utxos_witness:
  "PsbtIn_assert_valid ext0 pext0 psbt_in_both = Inr ()
   \<and> Tx_assert_valid pext0 [0x02, 0x00, 0x00, 0x00] = Inr ()
   \<and> TxOut_assert_valid \<lparr>txo_value = 10000, txo_script_pubkey = [0x6a, 0x00]\<rparr> = Inr ()
   \<and> (0::int) \<le> 10000 \<and> (10000::int) \<le> MAX_SATOSHI
   \<and> PsbtIn_serialize ext0 pext0 psbt_in_both True
        = Inr [0x01, 0x00, 0x04, 0x02, 0x00, 0x00, 0x00,
               0x01, 0x01, 0x0B, 0x10, 0x27, 0, 0, 0, 0, 0, 0, 2, 0x6a, 0x00]
   \<and> PsbtIn_deserialize ext0 pext0
        [([0x00], [0x02, 0x00, 0x00, 0x00]),
         ([0x01], [0x10, 0x27, 0, 0, 0, 0, 0, 0, 2, 0x6a, 0x00])] True = Inr psbt_in_both
   \<and> PsbtIn_assert_valid ext0 pext0
        (psbt_in_both\<lparr>non_witness_utxo := None, witness_utxo := None\<rparr>) = Inr ()"
proof -
  let ?tx = "[0x02, 0x00, 0x00, 0x00] :: bytes"
  let ?tx_out = "\<lparr>txo_value = 10000, txo_script_pubkey = [0x6a, 0x00]\<rparr>"
  let ?data = "[0x01, 0x00, 0x04, 0x02, 0x00, 0x00, 0x00,
               0x01, 0x01, 0x0B, 0x10, 0x27, 0, 0, 0, 0, 0, 0, 2, 0x6a, 0x00] :: bytes"
  let ?map = "[([0x00], [0x02, 0x00, 0x00, 0x00]),
         ([0x01], [0x10, 0x27, 0, 0, 0, 0, 0, 0, 2, 0x6a, 0x00])] :: dict_bytes_bytes"
  have s: "PsbtIn_serialize ext0 pext0 psbt_in_both True = Inr ?data" by code_simp
  have d: "PsbtIn_deserialize ext0 pext0 ?map True = Inr psbt_in_both" by code_simp
  have t: "Tx_assert_valid pext0 ?tx = Inr ()" by code_simp
  have o: "TxOut_assert_valid ?tx_out = Inr ()" by code_simp
  have n: "PsbtIn_assert_valid ext0 pext0
        (psbt_in_both\<lparr>non_witness_utxo := None, witness_utxo := None\<rparr>) = Inr ()"
    by code_simp
  have u: "non_witness_utxo psbt_in_both = Some ?tx" "witness_utxo psbt_in_both = Some ?tx_out"
    by (simp_all add: psbt_in_both_def)
  from PsbtIn_valid_utxos [of ext0 pext0 psbt_in_both ?data ?map ?tx ?tx_out] s d t o n u
  show ?thesis by simp
qed

text \<open>
  C8 (as stated, fails). A \<open>PsbtIn\<close> with both fields set is accepted by
  \<open>assert_valid\<close>, and \<open>deserialize\<close> returns it for a map with the keys 0x00 and 0x01.
\<close>

theorem PsbtIn_both_utxos_counterexample:
  "PsbtIn_assert_valid ext0 pext0 psbt_in_both = Inr ()
   \<and> non_witness_utxo psbt_in_both = Some [0x02, 0x00, 0x00, 0x00]
   \<and> witness_utxo psbt_in_both = Some \<lparr>txo_value = 10000, txo_script_pubkey = [0x6a, 0x00]\<rparr>
   \<and> PsbtIn_deserialize ext0 pext0
        [([0x00], [0x02, 0x00, 0x00, 0x00]),
         ([0x01], [0x10, 0x27, 0, 0, 0, 0, 0, 0, 2, 0x6a, 0x00])] True = Inr psbt_in_both"
  by code_simp


text \<open>
  C9 (fails on the code). For each proprietary record \<open>deserialize\<close> assigns
  \<open>out.proprietary = _deserialize_proprietary(key, value)\<close>, where the other dict fields
  are updated entry by entry: of two proprietary records, the \<open>PsbtIn\<close> returned holds what
  the last one gives, whatever \<open>_deserialize_proprietary\<close> does. A \<open>PsbtIn\<close> with two
  proprietary entries does not come back from its records.
\<close>

theorem PsbtIn_deserialize_proprietary_last:
  "PsbtIn_deserialize X P [(0xFC # k1, v1), (0xFC # k2, v2)] False =
     bnd (u_deserialize_proprietary P (0xFC # k1) v1) (\<lambda>first.
     bnd (u_deserialize_proprietary P (0xFC # k2) v2) (\<lambda>last.
       Inr (PsbtIn_default\<lparr>proprietary := last\<rparr>)))"
  by (cases "u_deserialize_proprietary P (0xFC # k1) v1"; cases "u_deserialize_proprietary P (0xFC # k2) v2")
     (simp_all add: PsbtIn_deserialize_def PsbtIn_deserialize_item_def PSBT_IN_NON_WITNESS_UTXO_def
       PSBT_IN_WITNESS_UTXO_def PSBT_IN_PARTIAL_SIG_def PSBT_IN_SIGHASH_TYPE_def
       PSBT_IN_REDEEM_SCRIPT_def PSBT_IN_WITNESS_SCRIPT_def PSBT_IN_BIP32_DERIVATION_def
       PSBT_IN_FINAL_SCRIPTSIG_def PSBT_IN_FINAL_SCRIPTWITNESS_def PSBT_IN_POR_COMMITMENT_def
       PSBT_IN_PROPRIETARY_def)

end
